theory Spec2Isabelle
  imports Main "HOL-Library.Word"
begin

unbundle bit_operations_syntax

section \<open>The driver object and the bus\<close>

text \<open>
  The driver (\<^verbatim>\<open>LiquidCrystal_PCF8574.cpp\<close>) keeps its state in the members of one object and
  talks to the display only through calls of the Arduino \<^verbatim>\<open>Wire\<close> object and of
  \<^verbatim>\<open>delayMicroseconds\<close>. The members are the fields of a record; the leading underscore of
  the member names is dropped. Every member is a \<^verbatim>\<open>uint8_t\<close>, except the flag
  \<^verbatim>\<open>_rs_state\<close>, which no function reads or writes.
\<close>

type_synonym u8 = "8 word"

record lcd =
  i2cAddr :: u8
  backlight :: u8
  lines :: u8
  entrymode :: u8
  displaycontrol :: u8
  rs_mask :: u8
  rw_mask :: u8
  enable_mask :: u8
  backlight_mask :: u8
  data_mask_0 :: u8
  data_mask_1 :: u8
  data_mask_2 :: u8
  data_mask_3 :: u8
  rs_state :: bool

text \<open>The array member \<^verbatim>\<open>_data_mask[4]\<close>, read at the constant indices 0 to 3.\<close>

definition data_mask :: "lcd \<Rightarrow> nat \<Rightarrow> u8" where
  "data_mask s i = [data_mask_0 s, data_mask_1 s, data_mask_2 s, data_mask_3 s] ! i"

text \<open>
  What the driver does to the outside world, in the order of the calls: \<^verbatim>\<open>Wire.begin()\<close>,
  \<^verbatim>\<open>Wire.beginTransmission(addr)\<close>, \<^verbatim>\<open>Wire.write(byte)\<close>, \<^verbatim>\<open>Wire.endTransmission()\<close> and
  \<^verbatim>\<open>delayMicroseconds(us)\<close>.
\<close>

datatype event =
    WireBegin
  | BeginTransmission u8
  | WireWrite u8
  | EndTransmission
  | DelayMicroseconds nat

text \<open>
  A member function takes the object and returns the object after the call together with
  the calls it made. \<open>seqs\<close> runs member functions one after the other.
\<close>

type_synonym step = "lcd \<Rightarrow> lcd \<times> event list"

definition seq :: "step \<Rightarrow> step \<Rightarrow> step" where
  "seq f g s = (let (s1, e1) = f s; (s2, e2) = g s1 in (s2, e1 @ e2))"

fun seqs :: "step list \<Rightarrow> step" where
  "seqs [] s = (s, [])"
| "seqs (f # fs) s = seq f (seqs fs) s"

definition emit :: "event list \<Rightarrow> step" where
  "emit es s = (s, es)"

definition delayMicroseconds :: "nat \<Rightarrow> step" where
  "delayMicroseconds us = emit [DelayMicroseconds us]"

section \<open>Construction\<close>

text \<open>
  \<^verbatim>\<open>0x01 << p\<close> is computed in \<^verbatim>\<open>int\<close> and cut to eight bits by the assignment to a
  \<^verbatim>\<open>uint8_t\<close> member: bit \<open>p\<close> for \<open>p \<le> 7\<close>, and 0 for a larger \<open>p\<close> below the width of
  \<^verbatim>\<open>int\<close>. From that width on (16 or 32, by the platform) C++ leaves the shift undefined,
  and what \<open>shl1\<close> gives there says nothing about the compiled driver. Every statement
  below about the masks that \<^verbatim>\<open>init\<close> computes therefore takes positions in \<open>[0, 7]\<close>,
  with 255 allowed where the source tests for it.
\<close>

definition shl1 :: "u8 \<Rightarrow> u8" where
  "shl1 p = push_bit (unat p) 1"

text \<open>
  \<^verbatim>\<open>init\<close> assigns every member except \<^verbatim>\<open>_lines\<close> and \<^verbatim>\<open>_rs_state\<close>, which keep what the
  object held before.
\<close>

definition init :: "u8 \<Rightarrow> u8 \<Rightarrow> u8 \<Rightarrow> u8 \<Rightarrow> u8 \<Rightarrow> u8 \<Rightarrow> u8 \<Rightarrow> u8 \<Rightarrow> u8 \<Rightarrow> lcd \<Rightarrow> lcd" where
  "init addr rs rw enable d4 d5 d6 d7 bl this =
     this\<lparr> i2cAddr := addr,
           backlight := 0,
           entrymode := 0x02,
           displaycontrol := 0x04,
           rs_mask := shl1 rs,
           rw_mask := (if rw \<noteq> 255 then shl1 rw else 0),
           enable_mask := shl1 enable,
           data_mask_0 := shl1 d4,
           data_mask_1 := shl1 d5,
           data_mask_2 := shl1 d6,
           data_mask_3 := shl1 d7,
           backlight_mask := (if bl \<noteq> 255 then shl1 bl else 0) \<rparr>"

text \<open>
  The four constructors. A C++ constructor either completes or is left by an exception; the
  result type records which, with \<open>Inr\<close> for the constructed object. The source has no
  \<^verbatim>\<open>throw\<close> and no check of its arguments, so every constructor completes.

  The two constructors with pin parameters both default \<^verbatim>\<open>backlight\<close> to 255 in the
  header, so a call with eight arguments fits both and is ambiguous. The one without
  \<^verbatim>\<open>rw\<close> is therefore only ever called with seven arguments, and runs with the backlight
  position 255; the one with \<^verbatim>\<open>rw\<close> is only ever called with all nine.
\<close>

datatype error = ConfigurationError

datatype LiquidCrystal_PCF8574_type = LiquidCrystal_PCF8574_Default | LiquidCrystal_PCF8574_JOY_IT

definition LiquidCrystal_PCF8574 :: "u8 \<Rightarrow> lcd \<Rightarrow> error + lcd" where
  "LiquidCrystal_PCF8574 addr this = Inr (init addr 0 1 2 4 5 6 7 3 this)"

definition LiquidCrystal_PCF8574_of_type :: "u8 \<Rightarrow> LiquidCrystal_PCF8574_type \<Rightarrow> lcd \<Rightarrow> error + lcd" where
  "LiquidCrystal_PCF8574_of_type addr type this =
     (case type of
        LiquidCrystal_PCF8574_JOY_IT \<Rightarrow> Inr (init addr 4 5 7 0 1 2 3 255 this)
      | LiquidCrystal_PCF8574_Default \<Rightarrow> Inr (init addr 0 1 2 4 5 6 7 3 this))"

definition LiquidCrystal_PCF8574_pins ::
  "u8 \<Rightarrow> u8 \<Rightarrow> u8 \<Rightarrow> u8 \<Rightarrow> u8 \<Rightarrow> u8 \<Rightarrow> u8 \<Rightarrow> lcd \<Rightarrow> error + lcd" where
  "LiquidCrystal_PCF8574_pins addr rs enable d4 d5 d6 d7 this =
     (let bl = 255
      in Inr (init addr rs 255 enable d4 d5 d6 d7 bl this))"

definition LiquidCrystal_PCF8574_pins_rw ::
  "u8 \<Rightarrow> u8 \<Rightarrow> u8 \<Rightarrow> u8 \<Rightarrow> u8 \<Rightarrow> u8 \<Rightarrow> u8 \<Rightarrow> u8 \<Rightarrow> u8 \<Rightarrow> lcd \<Rightarrow> error + lcd" where
  "LiquidCrystal_PCF8574_pins_rw addr rs rw enable d4 d5 d6 d7 bl this =
     Inr (init addr rs rw enable d4 d5 d6 d7 bl this)"

text \<open>
  The object before its constructor runs, for the evaluations below: an object of static
  storage duration, the usual place of an Arduino driver object, starts with every member zero.
\<close>

definition zeroed :: lcd where
  "zeroed = \<lparr> i2cAddr = 0, backlight = 0, lines = 0, entrymode = 0, displaycontrol = 0,
              rs_mask = 0, rw_mask = 0, enable_mask = 0, backlight_mask = 0,
              data_mask_0 = 0, data_mask_1 = 0, data_mask_2 = 0, data_mask_3 = 0,
              rs_state = False \<rparr>"

section \<open>The low-level functions\<close>

text \<open>
  \<^verbatim>\<open>if (value & m) out |= _data_mask[i];\<close> four times, for the masks \<open>m0\<close> to \<open>m3\<close>. The
  operands of \<^verbatim>\<open>&\<close> and \<^verbatim>\<open>|\<close> are promoted to \<^verbatim>\<open>int\<close>; on values below 256 the result
  is the one of the eight-bit operation.
\<close>

definition or_data :: "lcd \<Rightarrow> u8 \<Rightarrow> u8 \<Rightarrow> u8 \<Rightarrow> u8 \<Rightarrow> u8 \<Rightarrow> u8 \<Rightarrow> u8" where
  "or_data s v m0 m1 m2 m3 out =
     (let out = (if v AND m0 \<noteq> 0 then out OR data_mask s 0 else out);
          out = (if v AND m1 \<noteq> 0 then out OR data_mask s 1 else out);
          out = (if v AND m2 \<noteq> 0 then out OR data_mask s 2 else out);
          out = (if v AND m3 \<noteq> 0 then out OR data_mask s 3 else out)
      in out)"

definition send :: "u8 \<Rightarrow> bool \<Rightarrow> step" where
  "send v isData s =
     (let out = 0;
          out = (if backlight s > 0 then out OR backlight_mask s else out);
          out = (if isData then out OR rs_mask s else out);
          out1 = out;
          out = or_data s v 0x10 0x20 0x40 0x80 out;
          e1 = [BeginTransmission (i2cAddr s), WireWrite (out OR enable_mask s), WireWrite out];
          out = out1;
          out = or_data s v 0x01 0x02 0x04 0x08 out;
          e2 = [WireWrite (out OR enable_mask s), WireWrite out, EndTransmission]
      in (s, e1 @ e2))"

definition sendNibble :: "u8 \<Rightarrow> bool \<Rightarrow> step" where
  "sendNibble v isData s =
     (let out = 0;
          out = (if isData then out OR rs_mask s else out);
          out = (if backlight s > 0 then out OR backlight_mask s else out);
          out = or_data s v 0x01 0x02 0x04 0x08 out
      in (s, [BeginTransmission (i2cAddr s), WireWrite (out OR enable_mask s), WireWrite out,
              EndTransmission]))"

text \<open>\<^verbatim>\<open>_write2Wire(byte)\<close> does not read its parameter.\<close>

definition write2Wire :: "u8 \<Rightarrow> step" where
  "write2Wire byte s =
     (let out = rs_mask s;
          out = (if backlight s > 0 then out OR backlight_mask s else out)
      in (s, [BeginTransmission (i2cAddr s), WireWrite out, EndTransmission]))"

section \<open>The public functions\<close>

definition clear :: step where
  "clear = seqs [send 0x01 False, delayMicroseconds 1600]"

definition home :: step where
  "home = seqs [send 0x02 False, delayMicroseconds 1600]"

text \<open>
  \<^verbatim>\<open>setCursor\<close> reads \<^verbatim>\<open>row_offsets[row]\<close> from a local array of four entries; a \<open>row\<close>
  above 3 reads past it, which C++ leaves undefined: \<open>None\<close>. The sum and the \<^verbatim>\<open>|\<close> are
  computed in \<^verbatim>\<open>int\<close>, and the parameter of \<^verbatim>\<open>_send\<close> keeps the low eight bits.
\<close>

definition row_offsets :: "u8 list" where
  "row_offsets = [0x00, 0x40, 0x14, 0x54]"

definition setCursor :: "u8 \<Rightarrow> u8 \<Rightarrow> lcd \<Rightarrow> (lcd \<times> event list) option" where
  "setCursor col row s =
     (if unat row < length row_offsets
      then Some (send (word_of_int (0x80 OR (uint (row_offsets ! unat row) + uint col))) False s)
      else None)"

text \<open>
  The display-control and entry-mode functions update their member with \<^verbatim>\<open>|=\<close> or
  \<^verbatim>\<open>&= ~\<close> and then send the member under the instruction prefix.
\<close>

definition noDisplay :: step where
  "noDisplay s =
     (let s = s\<lparr>displaycontrol := displaycontrol s AND NOT 0x04\<rparr>
      in send (0x08 OR displaycontrol s) False s)"

definition display :: step where
  "display s =
     (let s = s\<lparr>displaycontrol := displaycontrol s OR 0x04\<rparr>
      in send (0x08 OR displaycontrol s) False s)"

definition cursor :: step where
  "cursor s =
     (let s = s\<lparr>displaycontrol := displaycontrol s OR 0x02\<rparr>
      in send (0x08 OR displaycontrol s) False s)"

definition noCursor :: step where
  "noCursor s =
     (let s = s\<lparr>displaycontrol := displaycontrol s AND NOT 0x02\<rparr>
      in send (0x08 OR displaycontrol s) False s)"

definition blink :: step where
  "blink s =
     (let s = s\<lparr>displaycontrol := displaycontrol s OR 0x01\<rparr>
      in send (0x08 OR displaycontrol s) False s)"

definition noBlink :: step where
  "noBlink s =
     (let s = s\<lparr>displaycontrol := displaycontrol s AND NOT 0x01\<rparr>
      in send (0x08 OR displaycontrol s) False s)"

definition scrollDisplayLeft :: step where
  "scrollDisplayLeft = send (0x10 OR 0x08 OR 0x00) False"

definition scrollDisplayRight :: step where
  "scrollDisplayRight = send (0x10 OR 0x08 OR 0x04) False"

definition leftToRight :: step where
  "leftToRight s =
     (let s = s\<lparr>entrymode := entrymode s OR 0x02\<rparr>
      in send (0x04 OR entrymode s) False s)"

definition rightToLeft :: step where
  "rightToLeft s =
     (let s = s\<lparr>entrymode := entrymode s AND NOT 0x02\<rparr>
      in send (0x04 OR entrymode s) False s)"

definition autoscroll :: step where
  "autoscroll s =
     (let s = s\<lparr>entrymode := entrymode s OR 0x01\<rparr>
      in send (0x04 OR entrymode s) False s)"

definition noAutoscroll :: step where
  "noAutoscroll s =
     (let s = s\<lparr>entrymode := entrymode s AND NOT 0x01\<rparr>
      in send (0x04 OR entrymode s) False s)"

definition setBacklight :: "u8 \<Rightarrow> step" where
  "setBacklight brightness s =
     (let s = s\<lparr>backlight := brightness\<rparr>
      in write2Wire 0x00 s)"

text \<open>\<^verbatim>\<open>command\<close>, inline in the header.\<close>

definition command :: "u8 \<Rightarrow> step" where
  "command v = send v False"

text \<open>\<^verbatim>\<open>write(uint8_t)\<close> returns 1 beside what it does.\<close>

definition write_ch :: "u8 \<Rightarrow> lcd \<Rightarrow> (lcd \<times> event list) \<times> nat" where
  "write_ch ch s = (send ch True s, 1)"

text \<open>
  \<^verbatim>\<open>createChar\<close> reads \<^verbatim>\<open>charmap[0]\<close> to \<^verbatim>\<open>charmap[7]\<close>; the list is the array it is
  given, and an array of fewer than eight bytes is read past its end: \<open>None\<close>.
  \<^verbatim>\<open>createCharPgm\<close> does the same with an array in program memory.
\<close>

definition createChar :: "u8 \<Rightarrow> u8 list \<Rightarrow> lcd \<Rightarrow> (lcd \<times> event list) option" where
  "createChar location charmap s =
     (if length charmap < 8 then None
      else let location = location AND 0x7
           in Some (seqs (send (0x40 OR push_bit 3 location) False #
                          map (\<lambda>i. fst \<circ> write_ch (charmap ! i)) [0..<8]) s))"

definition createCharPgm :: "u8 \<Rightarrow> u8 list \<Rightarrow> lcd \<Rightarrow> (lcd \<times> event list) option" where
  "createCharPgm location charmap s =
     (if length charmap < 8 then None
      else let location = location AND 0x7
           in Some (seqs (send (0x40 OR push_bit 3 location) False #
                          map (\<lambda>i. fst \<circ> write_ch (charmap ! i)) [0..<8]) s))"

text \<open>
  \<^verbatim>\<open>begin\<close> (a keyword here, hence the name); \<open>nlines\<close> is its parameter \<^verbatim>\<open>lines\<close>.
  \<^verbatim>\<open>cols\<close> is ignored by the source.
\<close>

definition lcd_begin :: "u8 \<Rightarrow> u8 \<Rightarrow> step" where
  "lcd_begin cols nlines s =
     (let s = s\<lparr>lines := nlines\<rparr>;
          functionFlags = 0;
          functionFlags = (if nlines > 1 then functionFlags OR 0x08 else functionFlags)
      in seqs [emit [WireBegin],
               write2Wire 0x00,
               delayMicroseconds 50000,
               (\<lambda>s. (s\<lparr>displaycontrol := 0x04, entrymode := 0x02\<rparr>, [])),
               sendNibble 0x03 False,
               delayMicroseconds 4500,
               sendNibble 0x03 False,
               delayMicroseconds 200,
               sendNibble 0x03 False,
               delayMicroseconds 200,
               sendNibble 0x02 False,
               send (0x20 OR functionFlags) False,
               display,
               clear,
               leftToRight] s)"

subsection \<open>Writing a buffer\<close>

text \<open>
  \<^verbatim>\<open>write(buffer, size)\<close>. The list is the \<open>size\<close> bytes of the buffer. \<^verbatim>\<open>BUFFER_LENGTH\<close> comes
  from \<^verbatim>\<open>Wire.h\<close>, which is not part of the driver: it is the parameter \<open>B\<close>, an \<^verbatim>\<open>int\<close>.
  The counter \<open>c\<close> is a \<^verbatim>\<open>uint8_t\<close>, so \<open>c + 4\<close> wraps at 256; the comparison with
  \<^verbatim>\<open>BUFFER_LENGTH - 4\<close> is made in \<^verbatim>\<open>int\<close>. The loop returns the counter it ends with.
\<close>

fun write_loop :: "int \<Rightarrow> lcd \<Rightarrow> u8 \<Rightarrow> u8 list \<Rightarrow> u8 \<Rightarrow> u8 \<times> event list" where
  "write_loop B s out1 [] c = (c, [])"
| "write_loop B s out1 (v # buffer) c =
     (let out = or_data s v 0x10 0x20 0x40 0x80 out1;
          e1 = (if c = 0 then [BeginTransmission (i2cAddr s)] else []);
          e2 = [WireWrite (out OR enable_mask s), WireWrite out];
          out = or_data s v 0x01 0x02 0x04 0x08 out1;
          e3 = [WireWrite (out OR enable_mask s), WireWrite out];
          c1 = c + 4;
          e4 = (if B - 4 \<le> uint c1 then [EndTransmission] else []);
          c2 = (if B - 4 \<le> uint c1 then 0 else c1);
          r = write_loop B s out1 buffer c2
      in (fst r, e1 @ e2 @ e3 @ e4 @ snd r))"

definition write_buf :: "int \<Rightarrow> u8 list \<Rightarrow> lcd \<Rightarrow> (lcd \<times> event list) \<times> nat" where
  "write_buf B buffer s =
     (let n = length buffer;
          out = rs_mask s;
          out = (if backlight s > 0 then out OR backlight_mask s else out);
          out1 = out;
          r = write_loop B s out1 buffer 0;
          e = (if fst r \<noteq> 0 then [EndTransmission] else [])
      in ((s, snd r @ e), n))"

subsection \<open>Calls from outside\<close>

text \<open>
  One constructor for every member function, the three private ones included, so that a
  statement about every operation is a statement about every \<open>op\<close>. A call returns \<open>None\<close>
  where the function reads past an array.
\<close>

datatype op =
    Begin u8 u8
  | Clear
  | Home
  | SetCursor u8 u8
  | NoDisplay
  | Display
  | Cursor
  | NoCursor
  | Blink
  | NoBlink
  | ScrollDisplayLeft
  | ScrollDisplayRight
  | LeftToRight
  | RightToLeft
  | Autoscroll
  | NoAutoscroll
  | SetBacklight u8
  | CreateChar u8 "u8 list"
  | CreateCharPgm u8 "u8 list"
  | Command u8
  | Write u8
  | WriteBuffer "u8 list"
  | Send u8 bool
  | SendNibble u8 bool
  | Write2Wire u8

fun call :: "int \<Rightarrow> op \<Rightarrow> lcd \<Rightarrow> (lcd \<times> event list) option" where
  "call B (Begin cols nlines) s = Some (lcd_begin cols nlines s)"
| "call B Clear s = Some (clear s)"
| "call B Home s = Some (home s)"
| "call B (SetCursor col row) s = setCursor col row s"
| "call B NoDisplay s = Some (noDisplay s)"
| "call B Display s = Some (display s)"
| "call B Cursor s = Some (cursor s)"
| "call B NoCursor s = Some (noCursor s)"
| "call B Blink s = Some (blink s)"
| "call B NoBlink s = Some (noBlink s)"
| "call B ScrollDisplayLeft s = Some (scrollDisplayLeft s)"
| "call B ScrollDisplayRight s = Some (scrollDisplayRight s)"
| "call B LeftToRight s = Some (leftToRight s)"
| "call B RightToLeft s = Some (rightToLeft s)"
| "call B Autoscroll s = Some (autoscroll s)"
| "call B NoAutoscroll s = Some (noAutoscroll s)"
| "call B (SetBacklight brightness) s = Some (setBacklight brightness s)"
| "call B (CreateChar location charmap) s = createChar location charmap s"
| "call B (CreateCharPgm location charmap) s = createCharPgm location charmap s"
| "call B (Command v) s = Some (command v s)"
| "call B (Write ch) s = Some (fst (write_ch ch s))"
| "call B (WriteBuffer buffer) s = Some (fst (write_buf B buffer s))"
| "call B (Send v isData) s = Some (send v isData s)"
| "call B (SendNibble v isData) s = Some (sendNibble v isData s)"
| "call B (Write2Wire byte) s = Some (write2Wire byte s)"

fun calls :: "int \<Rightarrow> op list \<Rightarrow> lcd \<Rightarrow> (lcd \<times> event list) option" where
  "calls B [] s = Some (s, [])"
| "calls B (x # xs) s =
     (case call B x s of
        None \<Rightarrow> None
      | Some (s1, e1) \<Rightarrow>
          (case calls B xs s1 of
             None \<Rightarrow> None
           | Some (s2, e2) \<Rightarrow> Some (s2, e1 @ e2)))"

subsection \<open>Bus transactions\<close>

text \<open>
  The transactions of a sequence of calls: the bytes written between a
  \<open>BeginTransmission\<close> and the next \<open>EndTransmission\<close>. \<open>None\<close> when the calls do not
  bracket: a write or an end outside a transmission, a begin inside one, or a
  transmission left open.
\<close>

fun collect :: "u8 list option \<Rightarrow> event list \<Rightarrow> u8 list list option" where
  "collect cur [] = (case cur of None \<Rightarrow> Some [] | Some xs \<Rightarrow> None)"
| "collect cur (BeginTransmission a # es) =
     (case cur of None \<Rightarrow> collect (Some []) es | Some xs \<Rightarrow> None)"
| "collect cur (WireWrite b # es) =
     (case cur of None \<Rightarrow> None | Some xs \<Rightarrow> collect (Some (xs @ [b])) es)"
| "collect cur (EndTransmission # es) =
     (case cur of None \<Rightarrow> None | Some xs \<Rightarrow> map_option ((#) xs) (collect None es))"
| "collect cur (WireBegin # es) = collect cur es"
| "collect cur (DelayMicroseconds us # es) = collect cur es"

definition transactions :: "event list \<Rightarrow> u8 list list option" where
  "transactions es = collect None es"

section \<open>What the interface document says about one instruction\<close>

text \<open>
  The wire-level contract, in its own words: \<open>base\<close> is the backlight mask when the backlight
  is on, joined with the register-select mask for data; a nibble adds \<open>data_mask i\<close> for every
  set bit \<open>off + i\<close> of the value.
\<close>

definition base :: "lcd \<Rightarrow> bool \<Rightarrow> u8" where
  "base s isData =
     (if backlight s > 0 then backlight_mask s else 0) OR (if isData then rs_mask s else 0)"

definition nibble_lines :: "lcd \<Rightarrow> u8 \<Rightarrow> nat \<Rightarrow> u8" where
  "nibble_lines s v off =
     fold (\<lambda>i acc. if bit v (off + i) then acc OR data_mask s i else acc) [0..<4] 0"

definition high :: "lcd \<Rightarrow> u8 \<Rightarrow> bool \<Rightarrow> u8" where
  "high s v isData = base s isData OR nibble_lines s v 4"

definition low :: "lcd \<Rightarrow> u8 \<Rightarrow> bool \<Rightarrow> u8" where
  "low s v isData = base s isData OR nibble_lines s v 0"

definition encode :: "lcd \<Rightarrow> u8 \<Rightarrow> bool \<Rightarrow> u8 list" where
  "encode s v isData =
     [high s v isData OR enable_mask s, high s v isData,
      low s v isData OR enable_mask s, low s v isData]"

text \<open>The bytes handed to \<^verbatim>\<open>Wire.write\<close>, in order.\<close>

fun written :: "event list \<Rightarrow> u8 list" where
  "written [] = []"
| "written (WireWrite b # es) = b # written es"
| "written (_ # es) = written es"

text \<open>The calls of one \<open>send\<close>: one transmission of the four bytes.\<close>

definition frame :: "lcd \<Rightarrow> u8 \<Rightarrow> bool \<Rightarrow> event list" where
  "frame s v isData =
     BeginTransmission (i2cAddr s) # map WireWrite (encode s v isData) @ [EndTransmission]"

section \<open>What the design document says about masks and flags\<close>

text \<open>The eight masks of the pin map, in the order of the parameters of \<^verbatim>\<open>init\<close>.\<close>

definition pin_masks :: "lcd \<Rightarrow> u8 list" where
  "pin_masks s = [rs_mask s, rw_mask s, enable_mask s, data_mask s 0, data_mask s 1,
                  data_mask s 2, data_mask s 3, backlight_mask s]"

text \<open>
  The display-control instruction is \<open>0x08 | display | cursor | blink\<close> with display = 0x04,
  cursor = 0x02 and blink = 0x01; the entry-mode instruction is
  \<open>0x04 | direction | autoscroll\<close> with direction = 0x02 and autoscroll = 0x01.
\<close>

definition display_control_instruction :: "bool \<Rightarrow> bool \<Rightarrow> bool \<Rightarrow> u8" where
  "display_control_instruction d c b =
     0x08 OR (if d then 0x04 else 0) OR (if c then 0x02 else 0) OR (if b then 0x01 else 0)"

definition entry_mode_instruction :: "bool \<Rightarrow> bool \<Rightarrow> u8" where
  "entry_mode_instruction direction scroll =
     0x04 OR (if direction then 0x02 else 0) OR (if scroll then 0x01 else 0)"

section \<open>What the design document says about batching\<close>

text \<open>
  The batcher, in the words of the design: every character contributes its four encoded
  bytes to the open transaction; the transaction is flushed once its byte count has reached
  the frame bound minus 4; what is left at the end of the stream is flushed as a last,
  partial transaction. \<open>cur\<close> is the open transaction, \<open>qs\<close> the encoded characters to come.
\<close>

fun pack :: "int \<Rightarrow> u8 list \<Rightarrow> u8 list list \<Rightarrow> u8 list list" where
  "pack B cur [] = (if cur = [] then [] else [cur])"
| "pack B cur (q # qs) =
     (if B - 4 \<le> int (length (cur @ q)) then (cur @ q) # pack B [] qs
      else pack B (cur @ q) qs)"

section \<open>The masks beside the read/write mask\<close>

text \<open>
  \<open>rw_free\<close>: no mask of another signal shares a bit with the read/write mask.
\<close>

definition other_masks :: "lcd \<Rightarrow> u8 list" where
  "other_masks s = [rs_mask s, enable_mask s, data_mask s 0, data_mask s 1, data_mask s 2,
                    data_mask s 3, backlight_mask s]"

definition rw_free :: "lcd \<Rightarrow> bool" where
  "rw_free s = list_all (\<lambda>m. m AND rw_mask s = 0) (other_masks s)"

section \<open>Encoding one instruction\<close>

lemma test_bit_u8:
  "(v AND 0x01 \<noteq> 0) = bit (v :: u8) 0" "(v AND 0x02 \<noteq> 0) = bit v 1"
  "(v AND 0x04 \<noteq> 0) = bit v 2" "(v AND 0x08 \<noteq> 0) = bit v 3"
  "(v AND 0x10 \<noteq> 0) = bit v 4" "(v AND 0x20 \<noteq> 0) = bit v 5"
  "(v AND 0x40 \<noteq> 0) = bit v 6" "(v AND 0x80 \<noteq> 0) = bit v 7"
  using and_exp_eq_0_iff_not_bit [of v 0] and_exp_eq_0_iff_not_bit [of v 1]
    and_exp_eq_0_iff_not_bit [of v 2] and_exp_eq_0_iff_not_bit [of v 3]
    and_exp_eq_0_iff_not_bit [of v 4] and_exp_eq_0_iff_not_bit [of v 5]
    and_exp_eq_0_iff_not_bit [of v 6] and_exp_eq_0_iff_not_bit [of v 7]
  by simp_all

lemma upt_4: "[0..<4] = [0, 1, 2, 3]"
  by (simp add: upt_rec)

lemma or_data_low: "or_data s v 0x01 0x02 0x04 0x08 b = b OR nibble_lines s v 0"
  unfolding or_data_def nibble_lines_def upt_4 test_bit_u8 Let_def
  by (simp add: ac_simps)

lemma or_data_high: "or_data s v 0x10 0x20 0x40 0x80 b = b OR nibble_lines s v 4"
  unfolding or_data_def nibble_lines_def upt_4 test_bit_u8 Let_def
  by (simp add: ac_simps)

lemma send_events:
  "send v isData s = (s, BeginTransmission (i2cAddr s) # map WireWrite (encode s v isData) @ [EndTransmission])"
  by (simp add: send_def Let_def or_data_low or_data_high encode_def high_def low_def base_def)

text \<open>
  C1. For every value \<open>v\<close>, every register-select flag and every object (so every stored
  backlight level and every pin map), \<open>send\<close> hands exactly four bytes to the bus, inside one
  transmission: \<open>high OR enable\<close>, \<open>high\<close>, \<open>low OR enable\<close>, \<open>low\<close>, with \<open>high\<close> and \<open>low\<close> as
  the interface document defines them; the object is left as it was; and each enable-high
  byte differs from the byte after it in no bit other than the enable bit.
\<close>

theorem send_four_bytes:
  "written (snd (send v isData s)) =
     [high s v isData OR enable_mask s, high s v isData,
      low s v isData OR enable_mask s, low s v isData]
   \<and> length (written (snd (send v isData s))) = 4
   \<and> snd (send v isData s) =
       BeginTransmission (i2cAddr s) # map WireWrite (encode s v isData) @ [EndTransmission]
   \<and> fst (send v isData s) = s
   \<and> ((high s v isData OR enable_mask s) XOR high s v isData) AND NOT (enable_mask s) = 0
   \<and> ((low s v isData OR enable_mask s) XOR low s v isData) AND NOT (enable_mask s) = 0"
proof -
  have diff: "((x OR m) XOR x) AND NOT m = 0" for x m :: u8
    by (rule bit_eqI) (auto simp: bit_simps)
  show ?thesis
    by (simp add: send_events encode_def diff)
qed

section \<open>The pin map\<close>

lemma shl1_pow: "shl1 p = 2 ^ unat p"
  by (simp add: shl1_def)

lemma pow_disjoint: "m \<noteq> n \<Longrightarrow> (2 ^ m :: u8) AND 2 ^ n = 0"
  by (rule bit_eqI) (auto simp: bit_simps)

lemma shl1_disjoint: "p \<noteq> q \<Longrightarrow> shl1 p AND shl1 q = 0"
  unfolding shl1_pow by (rule pow_disjoint) (simp add: word_unat_eq_iff)

lemma shl1_255: "shl1 255 = 0"
  by (simp add: shl1_def)

lemma pin_masks_init:
  "pin_masks (init addr rs rw enable d4 d5 d6 d7 bl this) =
     map shl1 [rs, rw, enable, d4, d5, d6, d7, bl]"
  by (simp add: pin_masks_def init_def data_mask_def shl1_255)

text \<open>
  C7. For every pin assignment whose positions are all in \<open>[0, 7]\<close> (255 allowed for the
  optional read/write and backlight signals), every stored mask is \<open>1 << position\<close>, that is
  \<open>2 ^ position\<close>, the sentinel 255 gives the mask 0, and any two signals at different
  positions have disjoint masks; so pairwise distinct positions give pairwise disjoint masks.
  The signals are listed in the order rs, rw, enable, d4, d5, d6, d7, backlight.
\<close>

theorem init_masks:
  assumes "\<forall>p \<in> set [rs, enable, d4, d5, d6, d7]. p \<le> 7"
    and "rw \<le> 7 \<or> rw = 255" and "bl \<le> 7 \<or> bl = 255"
  shows "pin_masks (init addr rs rw enable d4 d5 d6 d7 bl this) =
           map (\<lambda>p. if p = 255 then 0 else 2 ^ unat p) [rs, rw, enable, d4, d5, d6, d7, bl]
       \<and> (\<forall>i < 8. \<forall>j < 8. [rs, rw, enable, d4, d5, d6, d7, bl] ! i \<noteq> [rs, rw, enable, d4, d5, d6, d7, bl] ! j \<longrightarrow>
            pin_masks (init addr rs rw enable d4 d5 d6 d7 bl this) ! i AND
            pin_masks (init addr rs rw enable d4 d5 d6 d7 bl this) ! j = 0)"
proof -
  let ?ps = "[rs, rw, enable, d4, d5, d6, d7, bl]"
  have m: "shl1 p = (if p = 255 then 0 else 2 ^ unat p)" for p
    by (simp add: shl1_255) (simp add: shl1_pow)
  have a: "pin_masks (init addr rs rw enable d4 d5 d6 d7 bl this) =
           map (\<lambda>p. if p = 255 then 0 else 2 ^ unat p) ?ps"
    unfolding pin_masks_init by (simp add: m)
  have b: "pin_masks (init addr rs rw enable d4 d5 d6 d7 bl this) ! i AND
           pin_masks (init addr rs rw enable d4 d5 d6 d7 bl this) ! j = 0"
    if "i < 8" "j < 8" "?ps ! i \<noteq> ?ps ! j" for i j
  proof -
    have "length ?ps = 8" by simp
    with that have "map shl1 ?ps ! i = shl1 (?ps ! i)" "map shl1 ?ps ! j = shl1 (?ps ! j)"
      by (simp_all only: nth_map)
    moreover from that(3) have "shl1 (?ps ! i) AND shl1 (?ps ! j) = 0"
      by (rule shl1_disjoint)
    ultimately show ?thesis
      unfolding pin_masks_init by simp
  qed
  from a b show ?thesis by blast
qed


text \<open>The default pin assignment: rs 0, rw 1, enable 2, data 4 to 7, backlight 3.\<close>

theorem init_masks_witness:
  "pin_masks (init 0x27 0 1 2 4 5 6 7 3 zeroed) = [1, 2, 4, 16, 32, 64, 128, 8]
   \<and> pin_masks (init 0x27 0 1 2 4 5 6 7 3 zeroed) ! 0 AND pin_masks (init 0x27 0 1 2 4 5 6 7 3 zeroed) ! 2 = 0"
proof -
  have h1: "\<forall>p \<in> set [0, 2, 4, 5, 6, 7 :: u8]. p \<le> 7" by simp
  have h2: "(1 :: u8) \<le> 7 \<or> (1 :: u8) = 255" by simp
  have h3: "(3 :: u8) \<le> 7 \<or> (3 :: u8) = 255" by simp
  from init_masks [where addr=39 and this=zeroed, OF h1 h2 h3] show ?thesis by simp
qed

text \<open>
  C3 says that a pin assignment with two signals on one bit makes construction fail with a
  configuration error. With register select and enable both on bit 2, in the call with
  nine arguments (no read/write line, backlight on bit 3) as in the call with seven, the
  constructor completes, and both masks are 4.
\<close>

theorem init_conflict_counterexample:
  "LiquidCrystal_PCF8574_pins_rw 0x27 2 255 2 4 5 6 7 3 zeroed \<noteq> Inl ConfigurationError
   \<and> LiquidCrystal_PCF8574_pins_rw 0x27 2 255 2 4 5 6 7 3 zeroed =
       Inr (init 0x27 2 255 2 4 5 6 7 3 zeroed)
   \<and> rs_mask (init 0x27 2 255 2 4 5 6 7 3 zeroed) = 4
   \<and> enable_mask (init 0x27 2 255 2 4 5 6 7 3 zeroed) = 4
   \<and> LiquidCrystal_PCF8574_pins 0x27 2 2 4 5 6 7 zeroed \<noteq> Inl ConfigurationError
   \<and> LiquidCrystal_PCF8574_pins 0x27 2 2 4 5 6 7 zeroed =
       Inr (init 0x27 2 255 2 4 5 6 7 255 zeroed)
   \<and> rs_mask (init 0x27 2 255 2 4 5 6 7 255 zeroed) = 4
   \<and> enable_mask (init 0x27 2 255 2 4 5 6 7 255 zeroed) = 4"
  by (simp add: LiquidCrystal_PCF8574_pins_rw_def LiquidCrystal_PCF8574_pins_def init_def
      shl1_def)

text \<open>
  C3, as the driver behaves. For every pin assignment with positions in \<open>[0, 7]\<close> (255
  allowed for the optional read/write and backlight signals), distinct or not, no
  constructor fails; and two signals that are given the same position \<open>p \<le> 7\<close> both get
  the mask \<open>2 ^ p\<close>, so a conflict ends in two equal masks. The signals are listed in the
  order rs, rw, enable, d4, d5, d6, d7, backlight.
\<close>

theorem init_conflict_aliases:
  assumes "\<forall>p \<in> set [rs, enable, d4, d5, d6, d7]. p \<le> 7"
    and "rw \<le> 7 \<or> rw = 255" and "bl \<le> 7 \<or> bl = 255"
  shows "LiquidCrystal_PCF8574 addr this = Inr (init addr 0 1 2 4 5 6 7 3 this)
   \<and> LiquidCrystal_PCF8574_of_type addr type this \<noteq> Inl e
   \<and> LiquidCrystal_PCF8574_pins_rw addr rs rw enable d4 d5 d6 d7 bl this =
     Inr (init addr rs rw enable d4 d5 d6 d7 bl this)
   \<and> LiquidCrystal_PCF8574_pins addr rs enable d4 d5 d6 d7 this =
     Inr (init addr rs 255 enable d4 d5 d6 d7 255 this)
   \<and> (\<forall>i < 8. \<forall>j < 8.
         [rs, rw, enable, d4, d5, d6, d7, bl] ! i = [rs, rw, enable, d4, d5, d6, d7, bl] ! j
         \<and> [rs, rw, enable, d4, d5, d6, d7, bl] ! i \<le> 7 \<longrightarrow>
         pin_masks (init addr rs rw enable d4 d5 d6 d7 bl this) ! i =
           2 ^ unat ([rs, rw, enable, d4, d5, d6, d7, bl] ! i)
         \<and> pin_masks (init addr rs rw enable d4 d5 d6 d7 bl this) ! j =
           2 ^ unat ([rs, rw, enable, d4, d5, d6, d7, bl] ! i))"
proof -
  let ?ps = "[rs, rw, enable, d4, d5, d6, d7, bl]"
  have "pin_masks (init addr rs rw enable d4 d5 d6 d7 bl this) ! i = 2 ^ unat (?ps ! i)"
    if "i < 8" for i
  proof -
    have "length ?ps = 8" by simp
    with that have "map shl1 ?ps ! i = shl1 (?ps ! i)"
      by (simp only: nth_map)
    then show ?thesis
      unfolding pin_masks_init by (simp add: shl1_pow)
  qed
  then show ?thesis
    by (simp add: LiquidCrystal_PCF8574_pins_rw_def LiquidCrystal_PCF8574_pins_def
        LiquidCrystal_PCF8574_def LiquidCrystal_PCF8574_of_type_def
        split: LiquidCrystal_PCF8574_type.split)
qed

text \<open>
  Register select and enable both on bit 2, no read/write line, backlight on bit 3: the
  call with nine arguments completes, and both masks are 4.
\<close>

theorem init_conflict_aliases_witness:
  "LiquidCrystal_PCF8574_pins_rw 0x27 2 255 2 4 5 6 7 3 zeroed =
     Inr (init 0x27 2 255 2 4 5 6 7 3 zeroed)
   \<and> list_all (\<lambda>p. p \<le> 7) [2, 2, 4, 5, 6, 7 :: u8]
   \<and> [2, 255, 2, 4, 5, 6, 7, 3 :: u8] ! 0 = [2, 255, 2, 4, 5, 6, 7, 3] ! 2
   \<and> [2, 255, 2, 4, 5, 6, 7, 3 :: u8] ! 0 \<le> 7
   \<and> pin_masks (init 0x27 2 255 2 4 5 6 7 3 zeroed) ! 0 = 4
   \<and> pin_masks (init 0x27 2 255 2 4 5 6 7 3 zeroed) ! 2 = 4"
proof -
  have h1: "\<forall>p \<in> set [2, 2, 4, 5, 6, 7 :: u8]. p \<le> 7" by simp
  have h2: "(255 :: u8) \<le> 7 \<or> (255 :: u8) = 255" by simp
  have h3: "(3 :: u8) \<le> 7 \<or> (3 :: u8) = 255" by simp
  note t = init_conflict_aliases [where addr = 39 and this = zeroed, OF h1 h2 h3]
  from t have "LiquidCrystal_PCF8574_pins_rw 39 2 255 2 4 5 6 7 3 zeroed =
     Inr (init 39 2 255 2 4 5 6 7 3 zeroed)"
    by blast
  moreover from t [THEN conjunct2, THEN conjunct2, THEN conjunct2, THEN conjunct2,
      rule_format, of 0 2]
  have "pin_masks (init 39 2 255 2 4 5 6 7 3 zeroed) ! 0 = 4
      \<and> pin_masks (init 39 2 255 2 4 5 6 7 3 zeroed) ! 2 = 4"
    by simp
  ultimately show ?thesis by simp
qed

section \<open>Cursor positioning\<close>

lemma le7_cases: "(w::u8) \<le> 7 \<Longrightarrow> w \<in> {0, 1, 2, 3, 4, 5, 6, 7}"
proof -
  assume "w \<le> 7"
  then have "unat w \<le> 7" by (simp add: word_le_nat_alt)
  then have "unat w \<in> {0, 1, 2, 3, 4, 5, 6, 7}" by auto
  then show ?thesis by (auto simp: word_unat_eq_iff)
qed

lemma setCursor_value:
  "word_of_int (0x80 OR (uint (a::u8) + uint (b::u8))) = (0x80 OR (a + b) :: u8)"
  by (simp add: of_int_or_eq)

text \<open>
  C5. For every column and every row in \<open>[0, 3]\<close>, \<open>setCursor\<close> is one \<open>send\<close> of the command
  byte \<open>0x80 | (row_offsets[row] + col)\<close>, the sum and the result cut to eight bits, with the
  offset table \<open>{0x00, 0x40, 0x14, 0x54}\<close>; the object is unchanged and the bytes written are
  the four bytes of that command.
\<close>

theorem setCursor_command:
  assumes "unat row < 4"
  shows "setCursor col row s = Some (send (0x80 OR (row_offsets ! unat row + col)) False s)
       \<and> row_offsets = [0x00, 0x40, 0x14, 0x54]
       \<and> map_option (written \<circ> snd) (setCursor col row s) =
           Some (encode s (0x80 OR (row_offsets ! unat row + col)) False)"
proof -
  have len: "length row_offsets = 4" by (simp add: row_offsets_def)
  with assms have a: "setCursor col row s =
      Some (send (0x80 OR (row_offsets ! unat row + col)) False s)"
    by (simp add: setCursor_def setCursor_value)
  have "written (map WireWrite bs @ [EndTransmission]) = bs" for bs
    by (induction bs) simp_all
  then have "written (snd (send v False s)) = encode s v False" for v
    by (simp add: send_events)
  with a show ?thesis by (simp add: row_offsets_def)
qed

text \<open>\<open>setCursor(2, 1)\<close> sends the command \<open>0xC2\<close>.\<close>

theorem setCursor_command_witness:
  "unat (1 :: u8) < 4
   \<and> setCursor 2 1 (init 0x27 0 1 2 4 5 6 7 3 zeroed) =
       Some (send 0xC2 False (init 0x27 0 1 2 4 5 6 7 3 zeroed))"
proof -
  have h: "unat (1 :: u8) < 4" by simp
  from setCursor_command [OF h, of 2 "init 39 0 1 2 4 5 6 7 3 zeroed"] h
  show ?thesis by (simp add: row_offsets_def)
qed

section \<open>Display control and entry mode\<close>

lemma encode_update:
  "encode (s\<lparr>displaycontrol := x\<rparr>) v d = encode s v d"
  "encode (s\<lparr>entrymode := x\<rparr>) v d = encode s v d"
  "encode (s\<lparr>lines := x\<rparr>) v d = encode s v d"
  by (simp_all add: encode_def high_def low_def base_def nibble_lines_def data_mask_def cong: if_cong)

lemma send_frame: "send v isData s = (s, frame s v isData)"
  by (simp add: send_events frame_def)

lemma frame_update:
  "frame (s\<lparr>displaycontrol := x\<rparr>) v d = frame s v d"
  "frame (s\<lparr>entrymode := x\<rparr>) v d = frame s v d"
  "frame (s\<lparr>lines := x\<rparr>) v d = frame s v d"
  by (simp_all add: frame_def encode_update)

lemma display_control_ops:
  "noDisplay s = (s\<lparr>displaycontrol := displaycontrol s AND NOT 0x04\<rparr>,
                  frame s (0x08 OR (displaycontrol s AND NOT 0x04)) False)"
  "display s = (s\<lparr>displaycontrol := displaycontrol s OR 0x04\<rparr>,
                frame s (0x08 OR (displaycontrol s OR 0x04)) False)"
  "cursor s = (s\<lparr>displaycontrol := displaycontrol s OR 0x02\<rparr>,
               frame s (0x08 OR (displaycontrol s OR 0x02)) False)"
  "noCursor s = (s\<lparr>displaycontrol := displaycontrol s AND NOT 0x02\<rparr>,
                 frame s (0x08 OR (displaycontrol s AND NOT 0x02)) False)"
  "blink s = (s\<lparr>displaycontrol := displaycontrol s OR 0x01\<rparr>,
              frame s (0x08 OR (displaycontrol s OR 0x01)) False)"
  "noBlink s = (s\<lparr>displaycontrol := displaycontrol s AND NOT 0x01\<rparr>,
                frame s (0x08 OR (displaycontrol s AND NOT 0x01)) False)"
  by (simp_all add: noDisplay_def display_def cursor_def noCursor_def blink_def noBlink_def
      Let_def send_frame frame_update)

lemma entry_mode_ops:
  "leftToRight s = (s\<lparr>entrymode := entrymode s OR 0x02\<rparr>,
                    frame s (0x04 OR (entrymode s OR 0x02)) False)"
  "rightToLeft s = (s\<lparr>entrymode := entrymode s AND NOT 0x02\<rparr>,
                    frame s (0x04 OR (entrymode s AND NOT 0x02)) False)"
  "autoscroll s = (s\<lparr>entrymode := entrymode s OR 0x01\<rparr>,
                   frame s (0x04 OR (entrymode s OR 0x01)) False)"
  "noAutoscroll s = (s\<lparr>entrymode := entrymode s AND NOT 0x01\<rparr>,
                     frame s (0x04 OR (entrymode s AND NOT 0x01)) False)"
  by (simp_all add: leftToRight_def rightToLeft_def autoscroll_def noAutoscroll_def
      Let_def send_frame frame_update)

text \<open>
  C6 says that \<open>blink\<close> followed by \<open>noBlink\<close> brings the display-control flags back to
  what they were, from every starting state. One \<open>blink\<close> after construction gives display
  on and blink on (5); from there \<open>blink\<close> then \<open>noBlink\<close> ends with blink off (4).
\<close>

theorem blink_noBlink_counterexample:
  "displaycontrol (fst (blink (init 0x27 0 1 2 4 5 6 7 3 zeroed))) = 5
   \<and> displaycontrol (fst (noBlink (fst (blink (fst (blink (init 0x27 0 1 2 4 5 6 7 3 zeroed))))))) = 4"
  by (simp add: display_control_ops init_def)

lemma or_and_not_self: "(w OR m) AND NOT m = w AND NOT m" for w m :: u8
  by (rule bit_eqI) (auto simp: bit_simps)

lemma dc_blink: "w \<le> 7 \<Longrightarrow>
  0x08 OR (w OR 0x01) = display_control_instruction (bit w 2) (bit w 1) True
  \<and> 0x08 OR ((w OR 0x01) AND NOT 0x01) = display_control_instruction (bit w 2) (bit w 1) False
  \<and> (\<not> bit w 0 \<longrightarrow> w AND NOT 0x01 = w)" for w :: u8
  by (drule le7_cases) (auto simp: display_control_instruction_def)

lemma em_instr: "w \<le> 3 \<Longrightarrow>
  0x04 OR (w OR 0x02) = entry_mode_instruction True (bit w 0)
  \<and> 0x04 OR (w AND NOT 0x02) = entry_mode_instruction False (bit w 0)
  \<and> 0x04 OR (w OR 0x01) = entry_mode_instruction (bit w 1) True
  \<and> 0x04 OR (w AND NOT 0x01) = entry_mode_instruction (bit w 1) False" for w :: u8
proof -
  assume "w \<le> 3"
  then have "w \<le> 7" by (rule order_trans) simp
  from le7_cases [OF this] \<open>w \<le> 3\<close> have "w \<in> {0, 1, 2, 3}" by auto
  then show ?thesis by (auto simp: entry_mode_instruction_def)
qed

text \<open>
  C6, as the driver behaves. From every state whose display-control member holds flags only
  (at most 7) and whose entry-mode member holds flags only (at most 3), \<open>blink\<close> then
  \<open>noBlink\<close> issue exactly the instructions \<open>0x08 | display | cursor | 0x01\<close> and
  \<open>0x08 | display | cursor\<close>, with display = 0x04 and cursor = 0x02 taken from the state;
  afterwards the display-control member is its old value with the blink bit cleared, which
  is the old value when blink was off before. The entry-mode functions issue
  \<open>0x04 | direction | autoscroll\<close> with direction = 0x02 and autoscroll = 0x01.
\<close>

theorem blink_then_noBlink:
  assumes "displaycontrol s \<le> 7" and "entrymode s \<le> 3"
  shows "snd (blink s) =
           snd (send (display_control_instruction (bit (displaycontrol s) 2) (bit (displaycontrol s) 1) True) False s)
       \<and> snd (noBlink (fst (blink s))) =
           snd (send (display_control_instruction (bit (displaycontrol s) 2) (bit (displaycontrol s) 1) False) False s)
       \<and> fst (noBlink (fst (blink s))) = s\<lparr>displaycontrol := displaycontrol s AND NOT 0x01\<rparr>
       \<and> (\<not> bit (displaycontrol s) 0 \<longrightarrow> fst (noBlink (fst (blink s))) = s)
       \<and> snd (leftToRight s) = snd (send (entry_mode_instruction True (bit (entrymode s) 0)) False s)
       \<and> snd (rightToLeft s) = snd (send (entry_mode_instruction False (bit (entrymode s) 0)) False s)
       \<and> snd (autoscroll s) = snd (send (entry_mode_instruction (bit (entrymode s) 1) True) False s)
       \<and> snd (noAutoscroll s) = snd (send (entry_mode_instruction (bit (entrymode s) 1) False) False s)"
proof -
  note d = dc_blink [OF assms(1)]
  note e = em_instr [OF assms(2)]
  have 1: "snd (blink s) = frame s (0x08 OR (displaycontrol s OR 0x01)) False"
    by (simp add: display_control_ops)
  have 2: "snd (noBlink (fst (blink s))) =
        frame s (0x08 OR ((displaycontrol s OR 0x01) AND NOT 0x01)) False"
    unfolding display_control_ops fst_conv snd_conv by (simp add: frame_update)
  have 3: "fst (noBlink (fst (blink s))) =
        s\<lparr>displaycontrol := (displaycontrol s OR 0x01) AND NOT 0x01\<rparr>"
    unfolding display_control_ops fst_conv snd_conv by simp
  have 4: "\<not> bit (displaycontrol s) 0 \<Longrightarrow>
        s\<lparr>displaycontrol := displaycontrol s AND NOT 0x01\<rparr> = s"
    using d by simp
  have 5: "snd (leftToRight s) = frame s (0x04 OR (entrymode s OR 0x02)) False"
    "snd (rightToLeft s) = frame s (0x04 OR (entrymode s AND NOT 0x02)) False"
    "snd (autoscroll s) = frame s (0x04 OR (entrymode s OR 0x01)) False"
    "snd (noAutoscroll s) = frame s (0x04 OR (entrymode s AND NOT 0x01)) False"
    unfolding entry_mode_ops snd_conv by (rule refl)+
  have 6: "(displaycontrol s OR 0x01) AND NOT 0x01 = displaycontrol s AND NOT 0x01"
    by (rule or_and_not_self)
  from d have c1: "snd (blink s) =
      snd (send (display_control_instruction (bit (displaycontrol s) 2) (bit (displaycontrol s) 1) True) False s)"
    unfolding 1 send_frame snd_conv by simp
  from d have c2: "snd (noBlink (fst (blink s))) =
      snd (send (display_control_instruction (bit (displaycontrol s) 2) (bit (displaycontrol s) 1) False) False s)"
    unfolding 2 send_frame snd_conv by simp
  have c3: "fst (noBlink (fst (blink s))) = s\<lparr>displaycontrol := displaycontrol s AND NOT 0x01\<rparr>"
    unfolding 3 6 by (rule refl)
  from 4 have c4: "\<not> bit (displaycontrol s) 0 \<longrightarrow> fst (noBlink (fst (blink s))) = s"
    unfolding c3 by blast
  from e have c5: "snd (leftToRight s) = snd (send (entry_mode_instruction True (bit (entrymode s) 0)) False s)"
    "snd (rightToLeft s) = snd (send (entry_mode_instruction False (bit (entrymode s) 0)) False s)"
    "snd (autoscroll s) = snd (send (entry_mode_instruction (bit (entrymode s) 1) True) False s)"
    "snd (noAutoscroll s) = snd (send (entry_mode_instruction (bit (entrymode s) 1) False) False s)"
    unfolding 5 send_frame snd_conv by simp_all
  from c1 c2 c3 c4 c5 show ?thesis by blast
qed

text \<open>After construction: display on, cursor and blink off; the instructions are 0x0D and 0x0C.\<close>

theorem blink_then_noBlink_witness:
  "displaycontrol (init 0x27 0 1 2 4 5 6 7 3 zeroed) \<le> 7
   \<and> entrymode (init 0x27 0 1 2 4 5 6 7 3 zeroed) \<le> 3
   \<and> \<not> bit (displaycontrol (init 0x27 0 1 2 4 5 6 7 3 zeroed)) 0
   \<and> snd (blink (init 0x27 0 1 2 4 5 6 7 3 zeroed)) =
       snd (send 0x0D False (init 0x27 0 1 2 4 5 6 7 3 zeroed))
   \<and> snd (noBlink (fst (blink (init 0x27 0 1 2 4 5 6 7 3 zeroed)))) =
       snd (send 0x0C False (init 0x27 0 1 2 4 5 6 7 3 zeroed))
   \<and> fst (noBlink (fst (blink (init 0x27 0 1 2 4 5 6 7 3 zeroed)))) =
       init 0x27 0 1 2 4 5 6 7 3 zeroed"
proof -
  have h1: "displaycontrol (init 39 0 1 2 4 5 6 7 3 zeroed) \<le> 7"
    and h2: "entrymode (init 39 0 1 2 4 5 6 7 3 zeroed) \<le> 3"
    and dc: "displaycontrol (init 39 0 1 2 4 5 6 7 3 zeroed) = 4"
    by (simp_all add: init_def)
  have b: "\<not> bit (4 :: u8) 0" by simp
  have i: "display_control_instruction (bit (4 :: u8) 2) (bit (4 :: u8) 1) True = 0x0D"
    "display_control_instruction (bit (4 :: u8) 2) (bit (4 :: u8) 1) False = 0x0C"
    by (simp_all add: display_control_instruction_def)
  note t = blink_then_noBlink [OF h1 h2, unfolded dc i]
  from t b h1 h2 show ?thesis unfolding dc by blast
qed

section \<open>Every function as object and calls\<close>

lemma written_append: "written (xs @ ys) = written xs @ written ys"
  by (induction xs rule: written.induct) simp_all

lemma written_map_WireWrite: "written (map WireWrite bs) = bs"
  by (induction bs) simp_all

lemma written_frame: "written (frame s v d) = encode s v d"
  by (simp add: frame_def written_append written_map_WireWrite)

lemma base_commute:
  "(if backlight s > 0 then rs_mask s OR backlight_mask s else rs_mask s) = base s True"
  by (simp add: base_def ac_simps)

lemma sendNibble_eq:
  "sendNibble v isData s =
     (s, [BeginTransmission (i2cAddr s), WireWrite (low s v isData OR enable_mask s),
          WireWrite (low s v isData), EndTransmission])"
  by (simp add: sendNibble_def Let_def or_data_low low_def base_def ac_simps)

lemma write2Wire_eq:
  "write2Wire byte s = (s, [BeginTransmission (i2cAddr s), WireWrite (base s True), EndTransmission])"
  by (simp add: write2Wire_def Let_def base_def ac_simps)

lemma seq_eq: "seq f g s = (fst (g (fst (f s))), snd (f s) @ snd (g (fst (f s))))"
  by (simp add: seq_def split_beta)

lemma delay_eq: "delayMicroseconds us s = (s, [DelayMicroseconds us])"
  by (simp add: delayMicroseconds_def emit_def)

lemma clear_eq: "clear s = (s, frame s 0x01 False @ [DelayMicroseconds 1600])"
  by (simp add: clear_def seq_eq send_frame delay_eq)

lemma home_eq: "home s = (s, frame s 0x02 False @ [DelayMicroseconds 1600])"
  by (simp add: home_def seq_eq send_frame delay_eq)

lemma scroll_eq:
  "scrollDisplayLeft s = (s, frame s 0x18 False)"
  "scrollDisplayRight s = (s, frame s 0x1C False)"
  by (simp_all add: scrollDisplayLeft_def scrollDisplayRight_def send_frame)

lemma setCursor_eq:
  "setCursor col row s =
     (if unat row < 4 then Some (s, frame s (0x80 OR (row_offsets ! unat row + col)) False)
      else None)"
  by (simp add: setCursor_def setCursor_value send_frame row_offsets_def)

lemma setBacklight_eq:
  "setBacklight b s = (s\<lparr>backlight := b\<rparr>,
     [BeginTransmission (i2cAddr s), WireWrite (base (s\<lparr>backlight := b\<rparr>) True), EndTransmission])"
  by (simp add: setBacklight_def Let_def write2Wire_eq)

lemma write_ch_eq: "write_ch ch s = ((s, frame s ch True), 1)"
  by (simp add: write_ch_def send_frame)

lemma seqs_same:
  "(\<And>f s. f \<in> set fs \<Longrightarrow> fst (f s) = s) \<Longrightarrow>
     seqs fs s = (s, concat (map (\<lambda>f. snd (f s)) fs))"
  by (induction fs) (simp_all add: seq_eq)

lemma createChar_eq:
  "createChar location charmap s =
     (if length charmap < 8 then None
      else Some (s, frame s (0x40 OR push_bit 3 (location AND 0x7)) False @
                    concat (map (\<lambda>i. frame s (charmap ! i) True) [0..<8])))"
proof -
  have "seqs (send v False # map (\<lambda>i. fst \<circ> write_ch (charmap ! i)) [0..<8]) s =
      (s, frame s v False @ concat (map (\<lambda>i. frame s (charmap ! i) True) [0..<8]))" for v
    by (subst seqs_same) (auto simp: send_frame write_ch_eq comp_def)
  then show ?thesis by (simp add: createChar_def Let_def)
qed

lemma createCharPgm_eq: "createCharPgm location charmap s = createChar location charmap s"
  by (simp add: createCharPgm_def createChar_def)

lemma low_update:
  "low (s\<lparr>displaycontrol := x\<rparr>) v d = low s v d"
  "low (s\<lparr>entrymode := x\<rparr>) v d = low s v d"
  "low (s\<lparr>lines := x\<rparr>) v d = low s v d"
  by (simp_all add: low_def base_def nibble_lines_def data_mask_def cong: if_cong)

lemma base_update:
  "base (s\<lparr>displaycontrol := x\<rparr>) d = base s d"
  "base (s\<lparr>entrymode := x\<rparr>) d = base s d"
  "base (s\<lparr>lines := x\<rparr>) d = base s d"
  by (simp_all add: base_def)

lemma lcd_begin_eq:
  "lcd_begin cols nlines s =
     (s\<lparr>lines := nlines, displaycontrol := 0x04, entrymode := 0x02\<rparr>,
      [WireBegin,
       BeginTransmission (i2cAddr s), WireWrite (base s True), EndTransmission,
       DelayMicroseconds 50000,
       BeginTransmission (i2cAddr s), WireWrite (low s 0x03 False OR enable_mask s),
       WireWrite (low s 0x03 False), EndTransmission,
       DelayMicroseconds 4500,
       BeginTransmission (i2cAddr s), WireWrite (low s 0x03 False OR enable_mask s),
       WireWrite (low s 0x03 False), EndTransmission,
       DelayMicroseconds 200,
       BeginTransmission (i2cAddr s), WireWrite (low s 0x03 False OR enable_mask s),
       WireWrite (low s 0x03 False), EndTransmission,
       DelayMicroseconds 200,
       BeginTransmission (i2cAddr s), WireWrite (low s 0x02 False OR enable_mask s),
       WireWrite (low s 0x02 False), EndTransmission]
      @ frame s (0x20 OR (if nlines > 1 then 0x08 else 0)) False
      @ frame s 0x0C False
      @ frame s 0x01 False @ [DelayMicroseconds 1600]
      @ frame s 0x06 False)"
proof -
  have ff: "(if 1 < nlines then (0 :: u8) OR 0x08 else 0) = (if 1 < nlines then 0x08 else 0)"
    by simp
  show ?thesis
    unfolding lcd_begin_def Let_def ff
    by (simp add: seq_def emit_def delay_eq write2Wire_eq sendNibble_eq send_frame display_control_ops
        clear_eq entry_mode_ops frame_update low_update base_update)
qed

section \<open>Writing a buffer in batches\<close>

lemma write_loop_Cons:
  "write_loop B s (base s True) (v # buffer) c =
     (fst (write_loop B s (base s True) buffer (if B - 4 \<le> uint (c + 4) then 0 else c + 4)),
      (if c = 0 then [BeginTransmission (i2cAddr s)] else [])
      @ map WireWrite (encode s v True)
      @ (if B - 4 \<le> uint (c + 4) then [EndTransmission] else [])
      @ snd (write_loop B s (base s True) buffer (if B - 4 \<le> uint (c + 4) then 0 else c + 4)))"
  by (simp add: Let_def or_data_low or_data_high encode_def high_def low_def)

lemma collect_writes:
  "collect (Some xs) (map WireWrite bs @ es) = collect (Some (xs @ bs)) es"
  by (induction bs arbitrary: xs) simp_all

lemma length_encode: "length (encode s v d) = 4"
  by (simp add: encode_def)

lemma write_loop_collect:
  assumes "4 \<le> B" and "B \<le> 256"
    and "unat c = length cur" and "cur = [] \<or> int (length cur) < B - 4"
  shows "collect (if cur = [] then None else Some cur)
           (snd (write_loop B s (base s True) buffer c)
            @ (if fst (write_loop B s (base s True) buffer c) \<noteq> 0 then [EndTransmission] else []))
         = Some (pack B cur (map (\<lambda>v. encode s v True) buffer))"
  using assms(3,4)
proof (induction buffer arbitrary: c cur)
  case Nil
  then have "c = 0 \<longleftrightarrow> cur = []"
    by (auto simp: unat_eq_0)
  then show ?case by simp
next
  case (Cons v buffer)
  let ?cur = "cur @ encode s v True"
  from Cons.prems have c0: "c = 0 \<longleftrightarrow> cur = []"
    by (auto simp: unat_eq_0)
  from Cons.prems assms have small: "length cur + 4 < 256"
    by auto
  with Cons.prems have u4: "unat (c + 4) = length cur + 4"
    by (simp add: unat_word_ariths)
  then have ui: "uint (c + 4) = int (length cur) + 4"
    by (metis of_nat_add of_nat_numeral of_nat_unat)
  have start: "collect (if cur = [] then None else Some cur)
       ((if c = 0 then [BeginTransmission (i2cAddr s)] else []) @ es) = collect (Some cur) es" for es
    using c0 by simp
  show ?case
  proof (cases "B - 4 \<le> int (length cur) + 4")
    case True
    have ih: "collect None
           (snd (write_loop B s (base s True) buffer 0)
            @ (if fst (write_loop B s (base s True) buffer 0) \<noteq> 0 then [EndTransmission] else []))
         = Some (pack B [] (map (\<lambda>v. encode s v True) buffer))"
      using Cons.IH [of 0 "[]"] by simp
    show ?thesis
      unfolding write_loop_Cons fst_conv snd_conv append_assoc start collect_writes
      using True ih by (simp add: ui length_encode)
  next
    case False
    have ne: "?cur \<noteq> []" by (simp add: encode_def)
    have p1: "unat (c + 4) = length ?cur"
      using u4 by (simp add: length_encode)
    have p2: "?cur = [] \<or> int (length ?cur) < B - 4"
      using False by (simp add: length_encode)
    have ih: "collect (Some ?cur)
           (snd (write_loop B s (base s True) buffer (c + 4))
            @ (if fst (write_loop B s (base s True) buffer (c + 4)) \<noteq> 0 then [EndTransmission] else []))
         = Some (pack B ?cur (map (\<lambda>v. encode s v True) buffer))"
      using Cons.IH [OF p1 p2] ne by (simp only: if_False)
    show ?thesis
      unfolding write_loop_Cons fst_conv snd_conv append_assoc start collect_writes
      using False ih by (simp add: ui length_encode)
  qed
qed

lemma write_buf_eq:
  "write_buf B buffer s =
     ((s, snd (write_loop B s (base s True) buffer 0)
          @ (if fst (write_loop B s (base s True) buffer 0) \<noteq> 0 then [EndTransmission] else [])),
      length buffer)"
  by (simp add: write_buf_def Let_def base_commute)

lemma write_buf_transactions:
  assumes "4 \<le> B" and "B \<le> 256"
  shows "transactions (snd (fst (write_buf B buffer s))) =
           Some (pack B [] (map (\<lambda>v. encode s v True) buffer))"
  using write_loop_collect [OF assms, of 0 "[]" s buffer]
  by (simp add: write_buf_eq transactions_def)

lemma pack_bound:
  assumes "4 \<le> B" and "\<forall>q \<in> set qs. length q = 4" and "cur = [] \<or> int (length cur) < B - 4"
  shows "\<forall>f \<in> set (pack B cur qs). int (length f) \<le> B \<and> f \<noteq> []"
  using assms(2,3)
proof (induction qs arbitrary: cur)
  case Nil
  with assms(1) show ?case by auto
next
  case (Cons q qs)
  then have q: "length q = 4" by simp
  show ?case
  proof (cases "B - 4 \<le> int (length (cur @ q))")
    case True
    from Cons.prems q assms(1) have "int (length (cur @ q)) \<le> B" "cur @ q \<noteq> []" by auto
    moreover from Cons.IH [of "[]"] Cons.prems(1)
    have "\<forall>f \<in> set (pack B [] qs). int (length f) \<le> B \<and> f \<noteq> []" by simp
    ultimately show ?thesis using True by simp
  next
    case False
    with q have "cur @ q = [] \<or> int (length (cur @ q)) < B - 4" by simp
    from Cons.IH [OF _ this] Cons.prems(1) False show ?thesis by simp
  qed
qed

lemma pack_flushed:
  "\<forall>f \<in> set (butlast (pack B cur qs)). B - 4 \<le> int (length f)"
proof (induction qs arbitrary: cur)
  case Nil
  show ?case by simp
next
  case (Cons q qs)
  show ?case
  proof (cases "B - 4 \<le> int (length (cur @ q))")
    case True
    with Cons [of "[]"] show ?thesis by (cases "pack B [] qs = []") auto
  next
    case False
    with Cons [of "cur @ q"] show ?thesis by simp
  qed
qed

lemma concat_pack: "concat (pack B cur qs) = cur @ concat qs"
  by (induction qs arbitrary: cur) simp_all

lemma collect_written:
  "collect cur es = Some frames \<Longrightarrow>
     (case cur of None \<Rightarrow> [] | Some xs \<Rightarrow> xs) @ written es = concat frames"
  by (induction cur es arbitrary: frames rule: collect.induct)
     (auto split: option.splits)

lemma concat_encode_length:
  "length (concat (map (\<lambda>v. encode s v d) buffer)) = 4 * length buffer"
  by (induction buffer) (simp_all add: length_encode)

text \<open>
  C4. With a frame bound \<open>B\<close> from 4 to 256, \<open>write(buffer, size)\<close> makes well-bracketed
  transactions, and they are the batches of the design: no transaction is empty or longer
  than \<open>B\<close>; every transaction but the last has reached \<open>B - 4\<close> bytes; the bytes of all
  transactions together are the encoded characters in order, \<open>4 * size\<close> of them; there is
  more than one transaction when \<open>4 * size\<close> exceeds \<open>B\<close>; and the call returns \<open>size\<close>.
\<close>

theorem write_buffer_batches:
  assumes "4 \<le> B" and "B \<le> 256"
  shows "\<exists>frames.
           transactions (snd (fst (write_buf B buffer s))) = Some frames
         \<and> frames = pack B [] (map (\<lambda>v. encode s v True) buffer)
         \<and> (\<forall>f \<in> set frames. f \<noteq> [] \<and> int (length f) \<le> B)
         \<and> (\<forall>f \<in> set (butlast frames). B - 4 \<le> int (length f))
         \<and> concat frames = concat (map (\<lambda>v. encode s v True) buffer)
         \<and> written (snd (fst (write_buf B buffer s))) = concat frames
         \<and> sum_list (map length frames) = 4 * length buffer
         \<and> (B < 4 * int (length buffer) \<longrightarrow> 1 < length frames)
         \<and> snd (write_buf B buffer s) = length buffer"
proof -
  let ?qs = "map (\<lambda>v. encode s v True) buffer"
  let ?fs = "pack B [] ?qs"
  have t: "transactions (snd (fst (write_buf B buffer s))) = Some ?fs"
    using assms by (rule write_buf_transactions)
  have "\<forall>q \<in> set ?qs. length q = 4"
    by (simp add: length_encode)
  with assms(1) have b: "\<forall>f \<in> set ?fs. int (length f) \<le> B \<and> f \<noteq> []"
    by (rule pack_bound) simp
  have fl: "\<forall>f \<in> set (butlast ?fs). B - 4 \<le> int (length f)"
    by (rule pack_flushed)
  have c: "concat ?fs = concat ?qs"
    by (simp add: concat_pack)
  have w: "written (snd (fst (write_buf B buffer s))) = concat ?fs"
    using collect_written [OF t [unfolded transactions_def]] by simp
  have "sum_list (map length ?fs) = length (concat ?fs)"
    by (simp add: length_concat)
  then have total: "sum_list (map length ?fs) = 4 * length buffer"
    by (simp only: c concat_encode_length)
  have many: "1 < length ?fs" if big: "B < 4 * int (length buffer)"
  proof (rule ccontr)
    assume "\<not> 1 < length ?fs"
    then have "?fs = [] \<or> (\<exists>f. ?fs = [f])"
      by (cases ?fs) auto
    then show False
    proof (elim disjE exE)
      assume "?fs = []"
      with total big assms(1) show False by simp
    next
      fix f assume one: "?fs = [f]"
      with b have "int (length f) \<le> B" by simp
      moreover from one total have "length f = 4 * length buffer" by simp
      ultimately show False using big by simp
    qed
  qed
  have r: "snd (write_buf B buffer s) = length buffer"
    by (simp add: write_buf_eq)
  from t b fl c w total many r show ?thesis by blast
qed

text \<open>Nine characters with the frame bound 32: 36 bytes in more than one transaction.\<close>

theorem write_buffer_batches_witness:
  "(4 :: int) \<le> 32 \<and> (32 :: int) \<le> 256
   \<and> (32 :: int) < 4 * int (length (replicate 9 (0x48 :: u8)))
   \<and> (\<exists>frames.
         transactions (snd (fst (write_buf 32 (replicate 9 0x48) (init 0x27 0 1 2 4 5 6 7 3 zeroed))))
           = Some frames
       \<and> 1 < length frames
       \<and> (\<forall>f \<in> set frames. f \<noteq> [] \<and> int (length f) \<le> 32)
       \<and> sum_list (map length frames) = 36)
   \<and> snd (write_buf 32 (replicate 9 0x48) (init 0x27 0 1 2 4 5 6 7 3 zeroed)) = 9"
proof -
  have h1: "(4 :: int) \<le> 32" and h2: "(32 :: int) \<le> 256" by simp_all
  from write_buffer_batches [OF h1 h2, of "replicate 9 0x48" "init 39 0 1 2 4 5 6 7 3 zeroed"]
  obtain frames where
    "transactions (snd (fst (write_buf 32 (replicate 9 0x48) (init 39 0 1 2 4 5 6 7 3 zeroed))))
       = Some frames"
    "\<forall>f \<in> set frames. f \<noteq> [] \<and> int (length f) \<le> 32"
    "sum_list (map length frames) = 4 * length (replicate 9 (0x48 :: u8))"
    "32 < 4 * int (length (replicate 9 (0x48 :: u8))) \<longrightarrow> 1 < length frames"
    "snd (write_buf 32 (replicate 9 0x48) (init 39 0 1 2 4 5 6 7 3 zeroed)) = length (replicate 9 (0x48 :: u8))"
    by blast
  then show ?thesis by auto
qed

text \<open>
  Outside that range the batches are not as the design has them. With the bound 260 the
  counter is back at 0 after 64 characters, without a flush, and the next character opens
  a transmission inside the open one; with the bound 3 one character is a transaction of
  four bytes.
\<close>

lemma frame_bound_range_needed:
  "transactions (snd (fst (write_buf 260 (replicate 64 0) (init 39 0 1 2 4 5 6 7 3 zeroed)))) = None"
  "transactions (snd (fst (write_buf 3 [0] (init 39 0 1 2 4 5 6 7 3 zeroed)))) = Some [[5, 1, 5, 1]]"
  by code_simp+

section \<open>Functions that leave the object alone\<close>

text \<open>
  C10. \<open>clear\<close>, \<open>home\<close>, \<open>setCursor\<close>, \<open>scrollDisplayLeft\<close>, \<open>scrollDisplayRight\<close>,
  \<open>createChar\<close> and both \<open>write\<close> functions return the object they were given: every
  member, so the entry-mode flags, the display-control flags and the backlight level, is
  what it was before the call. \<open>setCursor\<close> and \<open>createChar\<close> do so wherever they are
  defined (a row below 4, an array of at least eight bytes).
\<close>

theorem display_state_unchanged:
  "fst (clear s) = s
   \<and> fst (home s) = s
   \<and> map_option fst (setCursor col row s) = (if unat row < 4 then Some s else None)
   \<and> fst (scrollDisplayLeft s) = s
   \<and> fst (scrollDisplayRight s) = s
   \<and> map_option fst (createChar location charmap s) = (if length charmap < 8 then None else Some s)
   \<and> map_option fst (createCharPgm location charmap s) = (if length charmap < 8 then None else Some s)
   \<and> fst (fst (write_ch ch s)) = s
   \<and> fst (fst (write_buf B buffer s)) = s"
  by (simp add: clear_eq home_eq setCursor_eq scroll_eq createChar_eq createCharPgm_eq
      write_ch_eq write_buf_eq)

section \<open>Initialisation\<close>

text \<open>
  C2. The calls of \<open>begin(16, 2)\<close> on an object built with the default pin assignment, in
  order. The byte written before the 50 ms delay is 0x01, the register-select mask: the
  settle byte has register select high. After it come the nibble 0x03 three times with the
  delays 4500, 200 and 200, the nibble 0x02, the function set 0x28 as two nibbles, display
  on 0x0C, clear 0x01 with its delay, and entry mode 0x06.
\<close>

theorem begin_default_trace:
  "snd (lcd_begin 16 2 (init 0x27 0 1 2 4 5 6 7 3 zeroed)) =
     [WireBegin,
      BeginTransmission 0x27, WireWrite 0x01, EndTransmission,
      DelayMicroseconds 50000,
      BeginTransmission 0x27, WireWrite 0x34, WireWrite 0x30, EndTransmission,
      DelayMicroseconds 4500,
      BeginTransmission 0x27, WireWrite 0x34, WireWrite 0x30, EndTransmission,
      DelayMicroseconds 200,
      BeginTransmission 0x27, WireWrite 0x34, WireWrite 0x30, EndTransmission,
      DelayMicroseconds 200,
      BeginTransmission 0x27, WireWrite 0x24, WireWrite 0x20, EndTransmission,
      BeginTransmission 0x27, WireWrite 0x24, WireWrite 0x20, WireWrite 0x84, WireWrite 0x80,
      EndTransmission,
      BeginTransmission 0x27, WireWrite 0x04, WireWrite 0x00, WireWrite 0xC4, WireWrite 0xC0,
      EndTransmission,
      BeginTransmission 0x27, WireWrite 0x04, WireWrite 0x00, WireWrite 0x14, WireWrite 0x10,
      EndTransmission,
      DelayMicroseconds 1600,
      BeginTransmission 0x27, WireWrite 0x04, WireWrite 0x00, WireWrite 0x64, WireWrite 0x60,
      EndTransmission]
   \<and> rs_mask (init 0x27 0 1 2 4 5 6 7 3 zeroed) = 0x01"
  by (simp add: lcd_begin_eq frame_def encode_def high_def low_def base_def nibble_lines_def
      upt_4 data_mask_def init_def shl1_def)

section \<open>The backlight level on the wire\<close>

lemma base_dim: "(0 < b) = (0 < backlight s) \<Longrightarrow> base (s\<lparr>backlight := b\<rparr>) d = base s d"
  by (simp add: base_def)

lemma nibble_lines_dim: "nibble_lines (s\<lparr>backlight := b\<rparr>) v off = nibble_lines s v off"
  by (simp add: nibble_lines_def data_mask_def cong: if_cong)

lemma low_dim: "(0 < b) = (0 < backlight s) \<Longrightarrow> low (s\<lparr>backlight := b\<rparr>) v d = low s v d"
  by (simp add: low_def base_dim nibble_lines_dim)

lemma encode_dim:
  "(0 < b) = (0 < backlight s) \<Longrightarrow> encode (s\<lparr>backlight := b\<rparr>) v d = encode s v d"
  by (simp add: encode_def high_def low_def base_dim nibble_lines_dim)

lemma frame_dim:
  "(0 < b) = (0 < backlight s) \<Longrightarrow> frame (s\<lparr>backlight := b\<rparr>) v d = frame s v d"
  by (simp add: frame_def encode_dim)

lemma or_data_dim: "or_data (s\<lparr>backlight := b\<rparr>) v m0 m1 m2 m3 out = or_data s v m0 m1 m2 m3 out"
  by (simp add: or_data_def data_mask_def Let_def)

lemma write_loop_dim:
  "write_loop B (s\<lparr>backlight := b\<rparr>) out1 buffer c = write_loop B s out1 buffer c"
  by (induction buffer arbitrary: c) (simp_all add: or_data_dim Let_def)

lemma write_buf_dim:
  "(0 < b) = (0 < backlight s) \<Longrightarrow>
     write_buf B buffer (s\<lparr>backlight := b\<rparr>) =
       ((fst (fst (write_buf B buffer s))\<lparr>backlight := b\<rparr>, snd (fst (write_buf B buffer s))),
        snd (write_buf B buffer s))"
  by (simp add: write_buf_eq write_loop_dim base_dim)

lemma call_dim:
  assumes "(0 < b) = (0 < backlight s)"
  shows "call B x (s\<lparr>backlight := b\<rparr>) =
           (case x of
              SetBacklight y \<Rightarrow> call B x s
            | _ \<Rightarrow> map_option (\<lambda>r. (fst r\<lparr>backlight := b\<rparr>, snd r)) (call B x s))"
  using assms
  by (cases x)
     (simp_all add: lcd_begin_eq clear_eq home_eq setCursor_eq display_control_ops scroll_eq
       entry_mode_ops setBacklight_eq createChar_eq createCharPgm_eq command_def send_frame
       write_ch_eq write_buf_dim sendNibble_eq write2Wire_eq frame_dim base_dim low_dim)

lemma call_backlight:
  "call B x s = Some (s', es) \<Longrightarrow>
     backlight s' = (case x of SetBacklight y \<Rightarrow> y | _ \<Rightarrow> backlight s)"
  by (cases x)
     (auto simp: lcd_begin_eq clear_eq home_eq setCursor_eq display_control_ops scroll_eq
       entry_mode_ops setBacklight_eq createChar_eq createCharPgm_eq command_def send_frame
       write_ch_eq write_buf_eq sendNibble_eq write2Wire_eq split: if_splits)

lemma calls_Cons_events:
  "map_option snd (calls B (x # xs) s) =
     (case call B x s of
        None \<Rightarrow> None
      | Some r \<Rightarrow> map_option ((@) (snd r)) (map_option snd (calls B xs (fst r))))"
  by (auto split: option.splits)

lemma calls_dim:
  "(0 < b) = (0 < backlight s) \<Longrightarrow>
     map_option snd (calls B ops (s\<lparr>backlight := b\<rparr>)) = map_option snd (calls B ops s)"
proof (induction ops arbitrary: s)
  case Nil
  show ?case by simp
next
  case (Cons x xs)
  show ?case
  proof (cases "call B x s")
    case None
    with call_dim [OF Cons.prems, of B x] show ?thesis
      by (cases x) simp_all
  next
    case (Some r)
    obtain s1 e1 where r: "r = (s1, e1)" by (cases r)
    show ?thesis
    proof (cases "\<exists>y. x = SetBacklight y")
      case True
      with call_dim [OF Cons.prems, of B x] show ?thesis
        by auto
    next
      case False
      with call_dim [OF Cons.prems, of B x] Some r
      have c: "call B x (s\<lparr>backlight := b\<rparr>) = Some (s1\<lparr>backlight := b\<rparr>, e1)"
        by (cases x) simp_all
      from call_backlight [OF Some [unfolded r]] False have "backlight s1 = backlight s"
        by (cases x) simp_all
      with Cons.prems have "(0 < b) = (0 < backlight s1)" by simp
      from Cons.IH [OF this] show ?thesis
        unfolding calls_Cons_events c Some r by simp
    qed
  qed
qed

text \<open>
  C8. For two backlight levels that are both zero or both positive, \<open>setBacklight\<close> with
  the one or the other followed by any sequence of calls makes the same calls on the bus,
  byte for byte, and is defined for the one exactly when it is for the other; the same
  holds for any two objects that differ only in such a level.
\<close>

theorem backlight_magnitude_unobservable:
  assumes "(0 < b1) = (0 < b2)"
  shows "map_option snd (calls B (SetBacklight b1 # ops) s) =
           map_option snd (calls B (SetBacklight b2 # ops) s)
       \<and> map_option snd (calls B ops (s\<lparr>backlight := b1\<rparr>)) =
           map_option snd (calls B ops (s\<lparr>backlight := b2\<rparr>))"
proof -
  have "(0 < b2) = (0 < backlight (s\<lparr>backlight := b1\<rparr>))"
    using assms by simp
  from calls_dim [OF this, of B ops]
  have two: "map_option snd (calls B ops (s\<lparr>backlight := b1\<rparr>)) =
           map_option snd (calls B ops (s\<lparr>backlight := b2\<rparr>))"
    by simp
  have e: "base (s\<lparr>backlight := b1\<rparr>) True = base (s\<lparr>backlight := b2\<rparr>) True"
    using assms by (simp add: base_def)
  have "map_option snd (calls B (SetBacklight b1 # ops) s) =
           map_option snd (calls B (SetBacklight b2 # ops) s)"
    unfolding calls_Cons_events using two e by (simp add: setBacklight_eq)
  with two show ?thesis by blast
qed

text \<open>The levels 1 and 255.\<close>

theorem backlight_magnitude_unobservable_witness:
  "((0 :: u8) < 1) = ((0 :: u8) < 255)
   \<and> calls 32 [SetBacklight 1, Write 0x48] (init 0x27 0 1 2 4 5 6 7 3 zeroed) \<noteq> None
   \<and> map_option snd (calls 32 [SetBacklight 1, Write 0x48] (init 0x27 0 1 2 4 5 6 7 3 zeroed)) =
       map_option snd (calls 32 [SetBacklight 255, Write 0x48] (init 0x27 0 1 2 4 5 6 7 3 zeroed))"
proof -
  have h: "((0 :: u8) < 1) = ((0 :: u8) < 255)" by simp
  have d: "calls 32 [SetBacklight 1, Write 0x48] (init 39 0 1 2 4 5 6 7 3 zeroed) \<noteq> None"
    by (simp add: setBacklight_eq write_ch_eq)
  from backlight_magnitude_unobservable [OF h, of 32 "[Write 0x48]" "init 39 0 1 2 4 5 6 7 3 zeroed"] h d
  show ?thesis by blast
qed

section \<open>The read/write line\<close>

lemma or_and_zero: "(a OR b) AND m = 0 \<longleftrightarrow> a AND m = 0 \<and> b AND m = 0" for a b m :: u8
  by (simp add: bit.conj_disj_distrib2 or_eq_0_iff)

lemma base_rw: "rw_free s \<Longrightarrow> base s d AND rw_mask s = 0"
  by (simp add: rw_free_def other_masks_def base_def or_and_zero)

lemma nibble_lines_rw: "rw_free s \<Longrightarrow> nibble_lines s v off AND rw_mask s = 0"
  by (simp add: rw_free_def other_masks_def nibble_lines_def upt_4 or_and_zero)

lemma enable_rw: "rw_free s \<Longrightarrow> enable_mask s AND rw_mask s = 0"
  by (simp add: rw_free_def other_masks_def)

lemma low_rw: "rw_free s \<Longrightarrow> low s v d AND rw_mask s = 0"
  "rw_free s \<Longrightarrow> (low s v d OR enable_mask s) AND rw_mask s = 0"
  by (simp_all add: low_def or_and_zero base_rw nibble_lines_rw enable_rw)

lemma high_rw: "rw_free s \<Longrightarrow> high s v d AND rw_mask s = 0"
  "rw_free s \<Longrightarrow> (high s v d OR enable_mask s) AND rw_mask s = 0"
  by (simp_all add: high_def or_and_zero base_rw nibble_lines_rw enable_rw)

lemma encode_rw: "rw_free s \<Longrightarrow> \<forall>b \<in> set (encode s v d). b AND rw_mask s = 0"
  unfolding encode_def by (simp add: high_rw low_rw)

lemma frame_rw: "rw_free s \<Longrightarrow> \<forall>b \<in> set (written (frame s v d)). b AND rw_mask s = 0"
  unfolding written_frame by (rule encode_rw)

lemma write_loop_written:
  "written (snd (write_loop B s (base s True) buffer c)) =
     concat (map (\<lambda>v. encode s v True) buffer)"
  by (induction buffer arbitrary: c)
     (simp_all add: write_loop_Cons written_append written_map_WireWrite del: write_loop.simps(2))

lemma write_buf_written:
  "written (snd (fst (write_buf B buffer s))) = concat (map (\<lambda>v. encode s v True) buffer)"
  by (simp add: write_buf_eq written_append write_loop_written)

lemma write_buf_rw:
  "rw_free s \<Longrightarrow> \<forall>b \<in> set (written (snd (fst (write_buf B buffer s)))). b AND rw_mask s = 0"
  unfolding write_buf_written using encode_rw [of s] by auto

lemma write_buf_state: "fst (fst (write_buf B buffer s)) = s"
  by (simp add: write_buf_eq)

lemma written_concat: "written (concat xss) = concat (map written xss)"
  by (induction xss) (simp_all add: written_append)

lemma frames_rw:
  "rw_free s \<Longrightarrow>
     \<forall>b \<in> set (written (concat (map (\<lambda>i. frame s (f i) d) is))). b AND rw_mask s = 0"
  using encode_rw [of s] by (auto simp: written_concat written_frame)

lemma rw_free_update:
  "rw_free (s\<lparr>displaycontrol := x\<rparr>) = rw_free s"
  "rw_free (s\<lparr>entrymode := x\<rparr>) = rw_free s"
  "rw_free (s\<lparr>lines := x\<rparr>) = rw_free s"
  "rw_free (s\<lparr>backlight := y\<rparr>) = rw_free s"
  by (simp_all add: rw_free_def other_masks_def data_mask_def)

lemma base_rw_backlight: "rw_free s \<Longrightarrow> base (s\<lparr>backlight := y\<rparr>) d AND rw_mask s = 0"
  using base_rw [of "s\<lparr>backlight := y\<rparr>" d] by (simp add: rw_free_update)

lemma call_rw:
  assumes "rw_free s" and "call B x s = Some (s', es)"
  shows "rw_free s' \<and> rw_mask s' = rw_mask s \<and> (\<forall>b \<in> set (written es). b AND rw_mask s = 0)"
proof -
  note eqs = lcd_begin_eq clear_eq home_eq setCursor_eq display_control_ops scroll_eq
       entry_mode_ops setBacklight_eq createChar_eq createCharPgm_eq command_def send_frame
       write_ch_eq sendNibble_eq write2Wire_eq
  note rws = written_append written_frame encode_rw base_rw low_rw rw_free_update
       base_rw_backlight frames_rw
  from assms show ?thesis
  proof (cases x)
    case (WriteBuffer buffer)
    with assms have "s' = fst (fst (write_buf B buffer s))" "es = snd (fst (write_buf B buffer s))"
      by simp_all
    with assms(1) write_buf_rw [OF assms(1), of B buffer] show ?thesis
      by (simp add: write_buf_state)
  next
    case (CreateChar location charmap)
    with assms show ?thesis
      by (auto simp: eqs rws split: if_splits dest: encode_rw)
  next
    case (CreateCharPgm location charmap)
    with assms show ?thesis
      by (auto simp: eqs rws split: if_splits dest: encode_rw)
  qed (auto simp: eqs rws split: if_splits)
qed

lemma calls_rw:
  "rw_free s \<Longrightarrow> calls B ops s = Some (s', es) \<Longrightarrow>
     rw_mask s' = rw_mask s \<and> (\<forall>b \<in> set (written es). b AND rw_mask s = 0)"
proof (induction ops arbitrary: s es)
  case Nil
  then show ?case by simp
next
  case (Cons x xs)
  from Cons.prems(2) obtain s1 e1 e2 where
    c1: "call B x s = Some (s1, e1)" and c2: "calls B xs s1 = Some (s', e2)" and es: "es = e1 @ e2"
    by (auto split: option.splits)
  from call_rw [OF Cons.prems(1) c1]
  have 1: "rw_free s1" "rw_mask s1 = rw_mask s" "\<forall>b \<in> set (written e1). b AND rw_mask s = 0"
    by simp_all
  from Cons.IH [OF 1(1) c2] 1(2)
  have 2: "rw_mask s' = rw_mask s" "\<forall>b \<in> set (written e2). b AND rw_mask s = 0"
    by simp_all
  from 1(3) 2 show ?case
    by (auto simp: es written_append)
qed

lemma rw_free_init:
  assumes "rw = 255 \<or> rw \<notin> set [rs, enable, d4, d5, d6, d7, bl]"
  shows "rw_free (init addr rs rw enable d4 d5 d6 d7 bl this)"
proof (cases "rw = 255")
  case True
  then show ?thesis
    by (simp add: rw_free_def other_masks_def data_mask_def init_def)
next
  case False
  with assms have "shl1 p AND shl1 rw = 0" if "p \<in> set [rs, enable, d4, d5, d6, d7, bl]" for p
    using that by (intro shl1_disjoint) auto
  with False show ?thesis
    by (simp add: rw_free_def other_masks_def data_mask_def init_def)
qed

text \<open>
  C9. For every pin assignment with positions in \<open>[0, 7]\<close> (255 allowed for the optional
  read/write and backlight signals) in which the read/write position is absent (255) or
  differs from the position of every other signal, every byte written by every sequence
  of calls after construction, initialisation, commands, data, nibbles and backlight
  updates alike, has the read/write bit clear; the read/write mask itself never changes.
\<close>

theorem rw_never_asserted:
  assumes "\<forall>p \<in> set [rs, enable, d4, d5, d6, d7]. p \<le> 7"
    and "rw \<le> 7 \<or> rw = 255" and "bl \<le> 7 \<or> bl = 255"
    and "rw = 255 \<or> rw \<notin> set [rs, enable, d4, d5, d6, d7, bl]"
    and "calls B ops (init addr rs rw enable d4 d5 d6 d7 bl this) = Some (s', es)"
  shows "(\<forall>b \<in> set (written es). b AND rw_mask s' = 0)
       \<and> rw_mask s' = (if rw = 255 then 0 else 2 ^ unat rw)"
proof -
  from calls_rw [OF rw_free_init [OF assms(4)] assms(5)]
  have "rw_mask s' = rw_mask (init addr rs rw enable d4 d5 d6 d7 bl this)"
    and "\<forall>b \<in> set (written es). b AND rw_mask (init addr rs rw enable d4 d5 d6 d7 bl this) = 0"
    by simp_all
  moreover have "rw_mask (init addr rs rw enable d4 d5 d6 d7 bl this) =
      (if rw = 255 then 0 else 2 ^ unat rw)"
    by (simp add: init_def shl1_pow)
  ultimately show ?thesis by simp
qed

text \<open>The default pin assignment has read/write on bit 1, mask 2.\<close>

theorem rw_never_asserted_witness:
  "list_all (\<lambda>p. p \<le> 7) [0, 2, 4, 5, 6, 7 :: u8]
   \<and> ((1 :: u8) \<le> 7 \<or> (1 :: u8) = 255)
   \<and> ((3 :: u8) \<le> 7 \<or> (3 :: u8) = 255)
   \<and> ((1 :: u8) = 255 \<or> (1 :: u8) \<notin> set [0, 2, 4, 5, 6, 7, 3])
   \<and> calls 32 [Begin 16 2, SetBacklight 255, SetCursor 2 1, WriteBuffer [0x48, 0x69]]
        (init 0x27 0 1 2 4 5 6 7 3 zeroed) \<noteq> None
   \<and> list_all (\<lambda>b. b AND 2 = 0) (written (snd (the
          (calls 32 [Begin 16 2, SetBacklight 255, SetCursor 2 1, WriteBuffer [0x48, 0x69]]
             (init 0x27 0 1 2 4 5 6 7 3 zeroed)))))"
proof -
  let ?ops = "[Begin 16 2, SetBacklight 255, SetCursor 2 1, WriteBuffer [0x48, 0x69]]"
  let ?s = "init 39 0 1 2 4 5 6 7 3 zeroed"
  have h1: "\<forall>p \<in> set [0, 2, 4, 5, 6, 7 :: u8]. p \<le> 7" by simp
  have h2: "(1 :: u8) \<le> 7 \<or> (1 :: u8) = 255" by simp
  have h3: "(3 :: u8) \<le> 7 \<or> (3 :: u8) = 255" by simp
  have h: "(1 :: u8) = 255 \<or> (1 :: u8) \<notin> set [0, 2, 4, 5, 6, 7, 3]" by simp
  have "calls 32 ?ops ?s \<noteq> None"
    by (simp add: setCursor_eq split: prod.splits)
  then obtain s' es where c: "calls 32 ?ops ?s = Some (s', es)" by auto
  from rw_never_asserted [OF h1 h2 h3 h c] have "\<forall>b \<in> set (written es). b AND 2 = 0"
    by auto
  then have "list_all (\<lambda>b. b AND 2 = 0) (written es)"
    by (simp only: Ball_set)
  with h c show ?thesis by simp
qed

end
